theory Spec2Isabelle
  imports Main
begin

section \<open>The composite focus tracker of the pro search widget\<close>

text \<open>
  A shallow embedding of \<^verbatim>\<open>packages/pro/search/src/composables/useFocusedState.ts\<close>.
  The closure variables of \<^verbatim>\<open>useFocusedState\<close>, \<^verbatim>\<open>manageTempSegmentActive\<close>,
  \<^verbatim>\<open>useFocusHandlers\<close> and \<^verbatim>\<open>registerHandlers\<close> are the fields of one record,
  every function of the source is a function on that record, and the event loop is
  explicit: a pending \<^verbatim>\<open>setTimeout\<close> is an entry of a first-in first-out queue, a
  pending \<^verbatim>\<open>nextTick\<close> callback is counted, and the environment chooses which
  input comes next. Calls into collaborators that are not part of the file
  (\<^verbatim>\<open>callEmit\<close>, \<^verbatim>\<open>setInactive\<close>, \<^verbatim>\<open>setTempActive\<close>, the focus monitor, the DOM)
  are recorded, in order, in a log of effects.
\<close>

subsection \<open>Values of the host language\<close>

text \<open>\<^verbatim>\<open>HTMLElement | null | undefined\<close>: an element is identified by a number.\<close>

datatype handle = Handle nat | Null | Undefined

text \<open>
  The value of a segment has type \<^verbatim>\<open>unknown\<close>; the source only tests whether it is
  truthy. Numbers are integers here (every number that is not an integer is truthy, like
  every integer other than zero), \<open>JObject\<close> stands for any object or array.
\<close>

datatype js_value =
  JUndefined | JNull | JBool bool | JNumber int | JNaN | JString string | JObject

fun truthy :: "js_value \<Rightarrow> bool" where
  "truthy JUndefined = False"
| "truthy JNull = False"
| "truthy (JBool b) = b"
| "truthy (JNumber n) = (n \<noteq> 0)"
| "truthy JNaN = False"
| "truthy (JString s) = (s \<noteq> [])"
| "truthy JObject = True"

text \<open>\<^verbatim>\<open>VKey = string | number | symbol\<close>.\<close>

datatype vkey = KString string | KNumber int | KSymbol nat

record focus_event =
  target :: handle
  timeStamp :: nat

text \<open>
  The value of the focus monitor that the watcher of \<^verbatim>\<open>bindMonitor\<close> receives.
  Modelled from the spec: the focus event source is not part of the file; a monitor value
  carries an origin flag (true = focus gained, false = focus lost) and the underlying
  event, which may be absent.
\<close>

record monitor_state =
  origin :: bool
  event :: "focus_event option"

record segment_value =
  seg_name :: string
  seg_value :: js_value

record active_segment =
  itemKey :: vkey
  name :: string

text \<open>\<^verbatim>\<open>FocusOptions\<close>.\<close>

record focus_options =
  preventScroll :: "bool option"

subsection \<open>Container resolution\<close>

text \<open>
  The \<^verbatim>\<open>container\<close> property is a string, an element (or nothing), or a function
  of no argument that returns one of these; \<open>Fn c\<close> is a function whose call returns \<open>c\<close>.
\<close>

datatype container_value = Str string | Direct handle

datatype container_prop = Fn container_value | Val container_value

datatype dom_exception = SyntaxError

text \<open>\<^verbatim>\<open>/^[.#]/.test(container)\<close>\<close>

fun test_sigil :: "string \<Rightarrow> bool" where
  "test_sigil [] = False"
| "test_sigil (c # _) = (c = CHR ''.'' \<or> c = CHR ''#'')"

text \<open>
  \<^verbatim>\<open>document.querySelector\<close> is a parameter: it answers a selector with an element,
  with null (\<open>None\<close>), or throws on a selector it cannot parse.
\<close>

type_synonym query_selector = "string \<Rightarrow> dom_exception + nat option"

fun element_or_null :: "nat option \<Rightarrow> handle" where
  "element_or_null None = Null"
| "element_or_null (Some n) = Handle n"

definition getContainerEl :: "query_selector \<Rightarrow> container_prop \<Rightarrow> dom_exception + handle" where
  "getContainerEl querySelector containerProp =
     (let container = (case containerProp of Fn c \<Rightarrow> c | Val c \<Rightarrow> c)
      in case container of
           Str s \<Rightarrow>
             (case querySelector (if test_sigil s then s else CHR ''.'' # s) of
                Inl e \<Rightarrow> Inl e
              | Inr r \<Rightarrow> Inr (element_or_null r))
         | Direct h \<Rightarrow> Inr h)"

subsection \<open>The tracker and its environment\<close>

text \<open>
  A monitored region is the \<^verbatim>\<open>elementRef\<close> of the widget or an element (the overlay
  container).
\<close>

datatype region = ElementRef | Element nat

text \<open>
  The two closures handed to \<^verbatim>\<open>handleBlur\<close> and \<^verbatim>\<open>handleFocus\<close>: the one of
  \<^verbatim>\<open>_handleBlur\<close>, and the one of \<^verbatim>\<open>_handleFocus\<close>, which captures its event.
\<close>

datatype callback = BlurCb | FocusCb focus_event

datatype effect =
    EmitFocus focus_event
  | EmitBlur focus_event
  | SetInactive bool
  | SetTempActive string
  | Monitor region
  | StopMonitoring region
  | GetOverlayContainer
  | Uncaught dom_exception
  | NativeFocus nat focus_options

text \<open>What a handler reads from outside at the moment it runs.\<close>

record env =
  disabled :: bool
  elementRef :: handle
  container :: container_prop
  querySelector :: query_selector
  activeSegment :: "active_segment option"
  segmentValues :: "segment_value list"
  tempSearchStateKey :: vkey

record tracker =
  focused :: bool
  prevActiveSegmentName :: "string option"
  shouldCheck :: bool
  subsequentFocus :: bool
  timers :: "(focus_event \<times> callback option) list"
  monitoredElements :: "region list"
  overlayContainerMonitored :: bool
  nextTicks :: nat
  effects :: "effect list"

definition useFocusedState :: tracker where
  "useFocusedState =
     \<lparr> focused = False, prevActiveSegmentName = None, shouldCheck = False,
       subsequentFocus = False, timers = [], monitoredElements = [],
       overlayContainerMonitored = False, nextTicks = 0, effects = [] \<rparr>"

definition perform :: "effect \<Rightarrow> tracker \<Rightarrow> tracker" where
  "perform e s = s\<lparr>effects := effects s @ [e]\<rparr>"

text \<open>
  Modelled from the spec: \<^verbatim>\<open>useState\<close> is not part of the file; the focused state is
  a single boolean flag and its setter stores the flag.
\<close>

definition setFocused :: "bool \<Rightarrow> tracker \<Rightarrow> tracker" where
  "setFocused v s = s\<lparr>focused := v\<rparr>"

definition setInactive :: "bool \<Rightarrow> tracker \<Rightarrow> tracker" where
  "setInactive b s = perform (SetInactive b) s"

definition setTempActive :: "string \<Rightarrow> tracker \<Rightarrow> tracker" where
  "setTempActive n s = perform (SetTempActive n) s"

subsection \<open>\<^verbatim>\<open>manageTempSegmentActive\<close>\<close>

text \<open>
  The loop \<^verbatim>\<open>for (idx = length - 1; idx > -1; idx--)\<close>: the first argument is
  \<open>idx + 1\<close>, the last the value of \<^verbatim>\<open>name\<close> when the loop is entered.
\<close>

fun lastWithValue :: "nat \<Rightarrow> segment_value list \<Rightarrow> string \<Rightarrow> string" where
  "lastWithValue 0 segs nm = nm"
| "lastWithValue (Suc idx) segs nm =
     (if truthy (seg_value (segs ! idx)) then seg_name (segs ! idx)
      else lastWithValue idx segs nm)"

text \<open>
  The name that \<^verbatim>\<open>setTempSegmentActive\<close> computes; \<^verbatim>\<open>!name\<close> holds for
  \<^verbatim>\<open>undefined\<close> and for the empty string.
\<close>

definition tempSegmentName :: "string option \<Rightarrow> segment_value list \<Rightarrow> string" where
  "tempSegmentName prev segs =
     (case prev of
        Some (c # cs) \<Rightarrow> c # cs
      | _ \<Rightarrow>
          lastWithValue (length segs) segs
            (case segs of [] \<Rightarrow> ''name'' | seg # _ \<Rightarrow> seg_name seg))"

definition setTempSegmentActive :: "env \<Rightarrow> tracker \<Rightarrow> tracker" where
  "setTempSegmentActive e s =
     setTempActive (tempSegmentName (prevActiveSegmentName s) (segmentValues e)) s"

definition setPrevActiveSegmentName :: "string option \<Rightarrow> tracker \<Rightarrow> tracker" where
  "setPrevActiveSegmentName n s = s\<lparr>prevActiveSegmentName := n\<rparr>"

subsection \<open>\<^verbatim>\<open>useFocusHandlers\<close>\<close>

text \<open>Running \<^verbatim>\<open>cb?.()\<close> for the two closures of \<^verbatim>\<open>useFocusedState\<close>.\<close>

fun call_cb :: "env \<Rightarrow> callback option \<Rightarrow> tracker \<Rightarrow> tracker" where
  "call_cb e None s = s"
| "call_cb e (Some BlurCb) s =
     setPrevActiveSegmentName
       (case activeSegment e of
          None \<Rightarrow> None
        | Some seg \<Rightarrow> if itemKey seg = tempSearchStateKey e then Some (name seg) else None) s"
| "call_cb e (Some (FocusCb evt)) s =
     (if target evt = elementRef e then setTempSegmentActive e s else s)"

text \<open>\<^verbatim>\<open>checkSubsequentFocus\<close> up to its \<^verbatim>\<open>await\<close>, and from there on.\<close>

definition checkSubsequentFocus_begin :: "tracker \<Rightarrow> tracker" where
  "checkSubsequentFocus_begin s = s\<lparr>subsequentFocus := False, shouldCheck := True\<rparr>"

definition checkSubsequentFocus_resume :: "tracker \<Rightarrow> bool \<times> tracker" where
  "checkSubsequentFocus_resume s =
     (subsequentFocus s, s\<lparr>subsequentFocus := False, shouldCheck := False\<rparr>)"

text \<open>
  \<^verbatim>\<open>handleBlur\<close> runs up to the \<^verbatim>\<open>setTimeout\<close> when it is called; what is left of it
  waits in \<open>timers\<close> with the event and the callback it was called with.
\<close>

definition handleBlur_begin :: "focus_event \<Rightarrow> callback option \<Rightarrow> tracker \<Rightarrow> tracker" where
  "handleBlur_begin evt cb s =
     (let s1 = checkSubsequentFocus_begin s in s1\<lparr>timers := timers s1 @ [(evt, cb)]\<rparr>)"

definition handleBlur_resume ::
  "env \<Rightarrow> focus_event \<Rightarrow> callback option \<Rightarrow> tracker \<Rightarrow> tracker" where
  "handleBlur_resume e evt cb s =
     (case checkSubsequentFocus_resume s of
        (seen, s1) \<Rightarrow>
          if seen then s1
          else perform (EmitBlur evt) (setFocused False (setInactive True (call_cb e cb s1))))"

definition handleFocus :: "env \<Rightarrow> focus_event \<Rightarrow> callback option \<Rightarrow> tracker \<Rightarrow> tracker" where
  "handleFocus e evt cb s =
     (let s1 = (if shouldCheck s then s\<lparr>subsequentFocus := True\<rparr> else s)
      in if focused s1 then s1
         else perform (EmitFocus evt) (setFocused True (call_cb e cb s1)))"

subsection \<open>\<^verbatim>\<open>useFocusedState\<close>\<close>

definition handleBlur' :: "focus_event \<Rightarrow> tracker \<Rightarrow> tracker" where
  "handleBlur' evt s = handleBlur_begin evt (Some BlurCb) s"

definition handleFocus' :: "env \<Rightarrow> focus_event \<Rightarrow> tracker \<Rightarrow> tracker" where
  "handleFocus' e evt s =
     (if disabled e then s else handleFocus e evt (Some (FocusCb evt)) s)"

definition focus :: "env \<Rightarrow> focus_options \<Rightarrow> tracker \<Rightarrow> tracker" where
  "focus e options s =
     (case elementRef e of Handle n \<Rightarrow> perform (NativeFocus n options) s | _ \<Rightarrow> s)"

definition blur :: "tracker \<Rightarrow> tracker" where
  "blur s = setFocused False (setInactive True s)"

text \<open>The watcher on \<^verbatim>\<open>[activeSegment, searchStates]\<close>.\<close>

definition watchActiveSegment :: "env \<Rightarrow> tracker \<Rightarrow> tracker" where
  "watchActiveSegment e s =
     (if activeSegment e = None \<and> focused s then setTempSegmentActive e s else s)"

subsection \<open>\<^verbatim>\<open>registerHandlers\<close>\<close>

definition bindMonitor :: "region \<Rightarrow> tracker \<Rightarrow> tracker" where
  "bindMonitor r s =
     (perform (Monitor r) s)
       \<lparr>monitoredElements :=
          (if r \<in> set (monitoredElements s) then monitoredElements s
           else monitoredElements s @ [r])\<rparr>"

definition unbindMonitor :: "tracker \<Rightarrow> tracker" where
  "unbindMonitor s = s\<lparr>effects := effects s @ map StopMonitoring (monitoredElements s)\<rparr>"

text \<open>The callback handed to \<^verbatim>\<open>nextTick\<close> after a focus of the primary region.\<close>

definition probeOverlayContainer :: "env \<Rightarrow> tracker \<Rightarrow> tracker" where
  "probeOverlayContainer e s =
     (if overlayContainerMonitored s then s
      else case getContainerEl (querySelector e) (container e) of
             Inl x \<Rightarrow> perform (Uncaught x) (perform GetOverlayContainer s)
           | Inr (Handle n) \<Rightarrow>
               (bindMonitor (Element n) (perform GetOverlayContainer s))
                 \<lparr>overlayContainerMonitored := True\<rparr>
           | Inr _ \<Rightarrow> perform GetOverlayContainer s)"

text \<open>The handlers bound to a region: the primary one also schedules the probe.\<close>

fun onFocus :: "region \<Rightarrow> env \<Rightarrow> focus_event \<Rightarrow> tracker \<Rightarrow> tracker" where
  "onFocus ElementRef e evt s =
     (let s1 = handleFocus' e evt s in s1\<lparr>nextTicks := Suc (nextTicks s1)\<rparr>)"
| "onFocus (Element n) e evt s = handleFocus' e evt s"

definition onBlur :: "region \<Rightarrow> focus_event \<Rightarrow> tracker \<Rightarrow> tracker" where
  "onBlur r evt s = handleBlur' evt s"

text \<open>The watcher that \<^verbatim>\<open>bindMonitor\<close> installs on a region.\<close>

definition watchMonitor :: "region \<Rightarrow> env \<Rightarrow> monitor_state \<Rightarrow> tracker \<Rightarrow> tracker" where
  "watchMonitor r e m s =
     (case event m of
        None \<Rightarrow> s
      | Some evt \<Rightarrow> if origin m then onFocus r e evt s else onBlur r evt s)"

subsection \<open>The event loop\<close>

text \<open>
  What can happen next: the monitor of a region reports a value (heard only when the
  region is bound), the oldest pending timer fires and the rest of its \<^verbatim>\<open>handleBlur\<close>
  runs, a pending \<^verbatim>\<open>nextTick\<close> callback runs, the host calls \<^verbatim>\<open>blur()\<close> or
  \<^verbatim>\<open>focus(options)\<close>, the active segment or the search states change, the widget is
  mounted or about to be unmounted. Timers without a delay fire in the order in which they
  were set. What follows the \<^verbatim>\<open>await\<close> of \<^verbatim>\<open>checkSubsequentFocus\<close> and of
  \<^verbatim>\<open>handleBlur\<close> runs in the microtasks of the timer's own task, before any other
  timer and before any event of the DOM, so the firing of a timer is one step.
\<close>

datatype input =
    Deliver region monitor_state
  | Timeout
  | NextTick
  | CallBlur
  | CallFocus focus_options
  | SegmentChanged
  | Mounted
  | BeforeUnmount

fun step :: "env \<Rightarrow> input \<Rightarrow> tracker \<Rightarrow> tracker" where
  "step e (Deliver r m) s =
     (if r \<in> set (monitoredElements s) then watchMonitor r e m s else s)"
| "step e Timeout s =
     (case timers s of
        [] \<Rightarrow> s
      | (evt, cb) # rest \<Rightarrow> handleBlur_resume e evt cb (s\<lparr>timers := rest\<rparr>))"
| "step e NextTick s =
     (case nextTicks s of
        0 \<Rightarrow> s
      | Suc k \<Rightarrow> probeOverlayContainer e (s\<lparr>nextTicks := k\<rparr>))"
| "step e CallBlur s = blur s"
| "step e (CallFocus options) s = focus e options s"
| "step e SegmentChanged s = watchActiveSegment e s"
| "step e Mounted s = bindMonitor ElementRef s"
| "step e BeforeUnmount s = unbindMonitor s"

fun run :: "(env \<times> input) list \<Rightarrow> tracker \<Rightarrow> tracker" where
  "run [] s = s"
| "run ((e, i) # rest) s = run rest (step e i s)"

text \<open>The calls of the host's \<^verbatim>\<open>onFocus\<close> and \<^verbatim>\<open>onBlur\<close> among the effects.\<close>

fun is_notification :: "effect \<Rightarrow> bool" where
  "is_notification (EmitFocus _) = True"
| "is_notification (EmitBlur _) = True"
| "is_notification _ = False"

definition notifications :: "tracker \<Rightarrow> effect list" where
  "notifications s = filter is_notification (effects s)"

definition focus_of :: "focus_event \<Rightarrow> monitor_state" where
  "focus_of evt = \<lparr>origin = True, event = Some evt\<rparr>"

definition blur_of :: "focus_event \<Rightarrow> monitor_state" where
  "blur_of evt = \<lparr>origin = False, event = Some evt\<rparr>"

subsection \<open>Notions used to state the properties\<close>




text \<open>Inputs that are neither a report of a monitor, nor a timer, nor a call of \<^verbatim>\<open>blur()\<close>.\<close>

fun quiet :: "input \<Rightarrow> bool" where
  "quiet NextTick = True"
| "quiet (CallFocus _) = True"
| "quiet SegmentChanged = True"
| "quiet Mounted = True"
| "quiet BeforeUnmount = True"
| "quiet _ = False"

fun is_overlay_bind :: "effect \<Rightarrow> bool" where
  "is_overlay_bind (Monitor (Element _)) = True"
| "is_overlay_bind _ = False"

definition overlay_binds :: "tracker \<Rightarrow> effect list" where
  "overlay_binds s = filter is_overlay_bind (effects s)"

definition locator_calls :: "tracker \<Rightarrow> nat" where
  "locator_calls s = length (filter (\<lambda>x. x = GetOverlayContainer) (effects s))"

text \<open>
  A sequence of inputs that are events of the single region \<open>r\<close>, timers, and inputs that
  are neither (probes and the like, but no call of \<^verbatim>\<open>blur()\<close>): every report of the
  monitor carries an event, every focus finds the widget enabled, no blur arrives while
  the timer of an earlier blur is pending (the second argument tells whether one is), and
  no timer is pending at the end.
\<close>

fun spaced :: "region \<Rightarrow> bool \<Rightarrow> (env \<times> input) list \<Rightarrow> bool" where
  "spaced r p [] = (\<not> p)"
| "spaced r p ((e, Deliver r' m) # rest) =
     (r' = r \<and> event m \<noteq> None \<and>
      (if origin m then \<not> disabled e \<and> spaced r p rest else \<not> p \<and> spaced r True rest))"
| "spaced r p ((e, Timeout) # rest) = spaced r False rest"
| "spaced r p ((e, i) # rest) = (quiet i \<and> spaced r p rest)"

text \<open>The origin of the most recent event; the first argument when there is none.\<close>

fun last_origin :: "bool \<Rightarrow> (env \<times> input) list \<Rightarrow> bool" where
  "last_origin f [] = f"
| "last_origin f ((e, Deliver r m) # rest) = last_origin (origin m) rest"
| "last_origin f ((e, _) # rest) = last_origin f rest"

text \<open>Every blur of the sequence arrives while the focused state is true.\<close>

fun blur_while_focused :: "(env \<times> input) list \<Rightarrow> tracker \<Rightarrow> bool" where
  "blur_while_focused [] s = True"
| "blur_while_focused ((e, Deliver r m) # rest) s =
     ((origin m \<or> focused s) \<and> blur_while_focused rest (step e (Deliver r m) s))"
| "blur_while_focused ((e, i) # rest) s = blur_while_focused rest (step e i s)"

text \<open>
  The notification that belongs to a change of the focused state in one step: none when
  the step leaves the focused state as it is; \<^verbatim>\<open>onFocus\<close> with the event of the report
  when a report makes it true; \<^verbatim>\<open>onBlur\<close> with the event of the blur whose timer fires
  when a timer makes it false. Along a sequence, one after the other.
\<close>

definition transition :: "env \<Rightarrow> input \<Rightarrow> tracker \<Rightarrow> effect list" where
  "transition e i s =
     (if focused (step e i s) = focused s then []
      else case i of
             Deliver r m \<Rightarrow> (case event m of Some evt \<Rightarrow> [EmitFocus evt] | None \<Rightarrow> [])
           | Timeout \<Rightarrow> (case timers s of (evt, cb) # rest \<Rightarrow> [EmitBlur evt] | [] \<Rightarrow> [])
           | _ \<Rightarrow> [])"

fun transitions :: "(env \<times> input) list \<Rightarrow> tracker \<Rightarrow> effect list" where
  "transitions [] s = []"
| "transitions ((e, i) # rest) s = transition e i s @ transitions rest (step e i s)"

text \<open>
  What holds between the inputs of such a sequence: with no timer pending the focused
  state is the origin of the most recent event; with the timer of a blur pending, the
  window is open and a focus has been seen in it exactly when the most recent event is a
  focus, and then the focused state is true.
\<close>

definition window_inv :: "region \<Rightarrow> bool \<Rightarrow> bool \<Rightarrow> tracker \<Rightarrow> bool" where
  "window_inv r p lo s =
     (r \<in> set (monitoredElements s) \<and>
      (if p then length (timers s) = 1 \<and> shouldCheck s \<and> subsequentFocus s = lo
                 \<and> (focused s \<or> \<not> lo)
       else timers s = [] \<and> focused s = lo))"

subsection \<open>A concrete widget\<close>

text \<open>
  An enabled widget whose element is number 0 and whose overlay container is element
  number 7, the same widget when disabled, and four events.
\<close>

definition widget :: env where
  "widget =
     \<lparr> disabled = False, elementRef = Handle 0, container = Val (Direct (Handle 7)),
       querySelector = (\<lambda>sel. Inr None), activeSegment = None, segmentValues = [],
       tempSearchStateKey = KSymbol 0 \<rparr>"

definition disabled_widget :: env where
  "disabled_widget = widget\<lparr>disabled := True\<rparr>"

definition ev :: "nat \<Rightarrow> focus_event" where
  "ev k = \<lparr>target = Handle 0, timeStamp = k\<rparr>"

text \<open>The widget is mounted, its element gains focus, the probe binds the container.\<close>

definition focused_widget :: tracker where
  "focused_widget =
     run [(widget, Mounted), (widget, Deliver ElementRef (focus_of (ev 0))), (widget, NextTick)]
       useFocusedState"

text \<open>
  Focus has then moved from the element to the container: the blur of the element and
  the focus of the container were delivered, the timer of the blur has not fired yet.
\<close>

definition moved_to_container :: tracker where
  "moved_to_container =
     run [(widget, Deliver ElementRef (blur_of (ev 1))),
          (widget, Deliver (Element 7) (focus_of (ev 2)))] focused_widget"

section \<open>Properties\<close>

lemmas handler_defs =
  perform_def setFocused_def setInactive_def setTempActive_def setTempSegmentActive_def
  setPrevActiveSegmentName_def checkSubsequentFocus_begin_def checkSubsequentFocus_resume_def
  handleBlur_begin_def handleBlur_resume_def handleFocus_def handleBlur'_def handleFocus'_def
  focus_def blur_def watchActiveSegment_def bindMonitor_def unbindMonitor_def
  probeOverlayContainer_def onBlur_def watchMonitor_def focus_of_def blur_of_def
  notifications_def

lemma focused_widget_state:
  "focused_widget =
     \<lparr> focused = True, prevActiveSegmentName = None, shouldCheck = False,
       subsequentFocus = False, timers = [], monitoredElements = [ElementRef, Element 7],
       overlayContainerMonitored = True, nextTicks = 0,
       effects = [Monitor ElementRef, SetTempActive ''name'', EmitFocus (ev 0),
                  GetOverlayContainer, Monitor (Element 7)] \<rparr>"
  by (simp add: focused_widget_def useFocusedState_def widget_def ev_def handler_defs
      getContainerEl_def tempSegmentName_def)

subsection \<open>What each input leaves unchanged\<close>

lemma call_cb_frame [simp]:
  "focused (call_cb e cb s) = focused s"
  "timers (call_cb e cb s) = timers s"
  "shouldCheck (call_cb e cb s) = shouldCheck s"
  "subsequentFocus (call_cb e cb s) = subsequentFocus s"
  "monitoredElements (call_cb e cb s) = monitoredElements s"
  "overlayContainerMonitored (call_cb e cb s) = overlayContainerMonitored s"
  "nextTicks (call_cb e cb s) = nextTicks s"
  "filter is_notification (effects (call_cb e cb s)) = filter is_notification (effects s)"
  "filter is_overlay_bind (effects (call_cb e cb s)) = filter is_overlay_bind (effects s)"
  by (cases "(e, cb, s)" rule: call_cb.cases; simp add: handler_defs)+

lemma step_blur:
  "r \<in> set (monitoredElements s) \<Longrightarrow>
   step e (Deliver r (blur_of evt)) s =
     s\<lparr>subsequentFocus := False, shouldCheck := True,
       timers := timers s @ [(evt, Some BlurCb)]\<rparr>"
  by (simp add: handler_defs)



lemma probe_frame [simp]:
  "focused (probeOverlayContainer e s) = focused s"
  "timers (probeOverlayContainer e s) = timers s"
  "shouldCheck (probeOverlayContainer e s) = shouldCheck s"
  "subsequentFocus (probeOverlayContainer e s) = subsequentFocus s"
  "prevActiveSegmentName (probeOverlayContainer e s) = prevActiveSegmentName s"
  "filter is_notification (effects (probeOverlayContainer e s)) = filter is_notification (effects s)"
  by (simp_all add: handler_defs split: sum.splits handle.splits)



lemma quiet_step:
  assumes "quiet i"
  shows "focused (step e i s) = focused s
     \<and> timers (step e i s) = timers s
     \<and> shouldCheck (step e i s) = shouldCheck s
     \<and> subsequentFocus (step e i s) = subsequentFocus s
     \<and> notifications (step e i s) = notifications s
     \<and> set (monitoredElements s) \<subseteq> set (monitoredElements (step e i s))"
proof (cases i)
  case NextTick
  then show ?thesis
    by (auto simp: notifications_def probeOverlayContainer_def bindMonitor_def perform_def split: nat.splits sum.splits handle.splits)
next
  case (CallFocus options)
  then show ?thesis by (simp add: focus_def perform_def notifications_def split: handle.splits)
qed (use assms in \<open>auto simp: handler_defs\<close>)


lemma moved_to_container_state:
  "moved_to_container =
     \<lparr> focused = True, prevActiveSegmentName = None, shouldCheck = True,
       subsequentFocus = True, timers = [(ev 1, Some BlurCb)],
       monitoredElements = [ElementRef, Element 7],
       overlayContainerMonitored = True, nextTicks = 0,
       effects = [Monitor ElementRef, SetTempActive ''name'', EmitFocus (ev 0),
                  GetOverlayContainer, Monitor (Element 7)] \<rparr>"
  by (simp add: moved_to_container_def focused_widget_state widget_def handler_defs)


subsection \<open>The programmatic blur\<close>

text \<open>
  C6: \<^verbatim>\<open>blur()\<close> is immediate and synchronous. In the call itself it invokes the
  inactive hook and sets the focused state to false, whatever the state was; it opens no
  debounce window (no timer is added, the two window flags keep their values), so an open
  window or a focus seen in it changes nothing of this.
\<close>

theorem blur_immediate:
  "blur s = s\<lparr>focused := False, effects := effects s @ [SetInactive True]\<rparr>
   \<and> step e CallBlur s = blur s
   \<and> focused (blur s) = False
   \<and> timers (blur s) = timers s
   \<and> shouldCheck (blur s) = shouldCheck s
   \<and> subsequentFocus (blur s) = subsequentFocus s"
  by (simp add: blur_def setFocused_def setInactive_def perform_def)

subsection \<open>Focus while focused\<close>

text \<open>
  C5: focus handling is idempotent. A focus event that arrives while the focused state is
  true and no debounce window is checking leaves the tracker as it is: no transition, no
  pre-focus callback, no notification. This holds for \<^verbatim>\<open>handleFocus\<close> with any callback,
  for \<^verbatim>\<open>_handleFocus\<close>, and for the event delivered to a region; the handler bound to the
  primary region only schedules the container probe in addition.
\<close>

theorem focus_idempotent:
  assumes "focused s" and "\<not> shouldCheck s"
  shows "handleFocus e evt cb s = s
     \<and> handleFocus' e evt s = s
     \<and> step e (Deliver r (focus_of evt)) s =
         (if r = ElementRef \<and> r \<in> set (monitoredElements s)
          then s\<lparr>nextTicks := Suc (nextTicks s)\<rparr> else s)"
  using assms
  by (cases r) (simp_all add: handleFocus_def handleFocus'_def watchMonitor_def focus_of_def)

theorem focus_idempotent_witness:
  "focused focused_widget \<and> \<not> shouldCheck focused_widget
   \<and> handleFocus widget (ev 1) (Some (FocusCb (ev 1))) focused_widget = focused_widget
   \<and> notifications (step widget (Deliver (Element 7) (focus_of (ev 1))) focused_widget)
       = [EmitFocus (ev 0)]"
  using focus_idempotent [of focused_widget widget "ev 1" "Some (FocusCb (ev 1))" "Element 7"]
  by (simp add: focused_widget_state notifications_def)

subsection \<open>Container resolution\<close>

text \<open>
  C8: container resolution. A function is called and its result is resolved like a plain
  value; a string is handed to the DOM query as it is when its first character is \<open>.\<close> or
  \<open>#\<close>, and with a \<open>.\<close> put in front otherwise; an element, null or undefined is returned
  unchanged; a query that finds nothing yields null, not an error.
\<close>

theorem container_resolution:
  "getContainerEl qs (Fn c) = getContainerEl qs (Val c)
   \<and> getContainerEl qs (Val (Str s)) =
       (case qs (if s \<noteq> [] \<and> (hd s = CHR ''.'' \<or> hd s = CHR ''#'') then s else ''.'' @ s) of
          Inl x \<Rightarrow> Inl x | Inr None \<Rightarrow> Inr Null | Inr (Some n) \<Rightarrow> Inr (Handle n))
   \<and> getContainerEl qs (Val (Direct h)) = Inr h
   \<and> (qs (if s \<noteq> [] \<and> (hd s = CHR ''.'' \<or> hd s = CHR ''#'') then s else ''.'' @ s) = Inr None
        \<longrightarrow> getContainerEl qs (Val (Str s)) = Inr Null)"
  by (cases s) (auto simp: getContainerEl_def split: sum.splits option.splits)

theorem container_resolution_witness:
  "getContainerEl (\<lambda>sel. if sel = ''.ix-overlay'' then Inr (Some 7) else Inr None)
      (Fn (Str ''ix-overlay'')) = Inr (Handle 7)
   \<and> getContainerEl (\<lambda>sel. if sel = ''.ix-overlay'' then Inr (Some 7) else Inr None)
      (Val (Str ''#app'')) = Inr Null"
  using
    container_resolution [of "\<lambda>sel. if sel = ''.ix-overlay'' then Inr (Some 7) else Inr None"
      "Str ''ix-overlay''" "''#app''" Null]
    container_resolution [of "\<lambda>sel. if sel = ''.ix-overlay'' then Inr (Some 7) else Inr None"
      "Str ''ix-overlay''" "''ix-overlay''" Null]
  by simp

subsection \<open>The segment activated on refocus\<close>






subsection \<open>A blur that no focus follows\<close>



subsection \<open>A blur that a focus follows in the same turn\<close>





subsection \<open>The disabled widget\<close>

text \<open>
  C10: the disabled guard is on focus only. While \<^verbatim>\<open>props.disabled\<close> is true,
  \<^verbatim>\<open>_handleFocus\<close> returns the state unchanged (no transition, no callback, no mark on
  an open window; delivered to the primary region the event still schedules the container
  probe, and nothing else). A blur delivered to a monitored region opens the window as
  always, and when its timer fires, with or without a focus delivered in between, the
  focused state is false and \<^verbatim>\<open>onBlur\<close> has been emitted once.
\<close>

theorem disabled_guard:
  assumes "disabled e"
  shows "handleFocus' e evt s = s
     \<and> step e (Deliver r (focus_of evt)) s =
         (if r = ElementRef \<and> r \<in> set (monitoredElements s)
          then s\<lparr>nextTicks := Suc (nextTicks s)\<rparr> else s)
     \<and> (r \<in> set (monitoredElements s) \<longrightarrow>
          step e (Deliver r (blur_of evt)) s =
            s\<lparr>subsequentFocus := False, shouldCheck := True,
              timers := timers s @ [(evt, Some BlurCb)]\<rparr>)
     \<and> (r \<in> set (monitoredElements s) \<and> timers s = [] \<longrightarrow>
          focused (run [(e, Deliver r (blur_of evt)), (e, Timeout)] s) = False
        \<and> notifications (run [(e, Deliver r (blur_of evt)), (e, Timeout)] s)
            = notifications s @ [EmitBlur evt]
        \<and> focused (run [(e, Deliver r (blur_of evt)), (e, Deliver r' (focus_of evt')),
                         (e, Timeout)] s) = False
        \<and> notifications (run [(e, Deliver r (blur_of evt)), (e, Deliver r' (focus_of evt')),
                         (e, Timeout)] s)
            = notifications s @ [EmitBlur evt])"
proof -
  have a: "handleFocus' e evt s = s" for evt s
    using assms by (simp add: handleFocus'_def)
  have b: "step e (Deliver r (focus_of evt)) s =
         (if r = ElementRef \<and> r \<in> set (monitoredElements s)
          then s\<lparr>nextTicks := Suc (nextTicks s)\<rparr> else s)" for r evt s
    by (cases r) (simp_all add: a watchMonitor_def focus_of_def)
  have c: "step e (Deliver r (blur_of evt)) s =
            s\<lparr>subsequentFocus := False, shouldCheck := True,
              timers := timers s @ [(evt, Some BlurCb)]\<rparr>"
    if "r \<in> set (monitoredElements s)"
    using that by (rule step_blur)
  have d: "focused (run [(e, Deliver r (blur_of evt)), (e, Timeout)] s) = False
        \<and> notifications (run [(e, Deliver r (blur_of evt)), (e, Timeout)] s)
            = notifications s @ [EmitBlur evt]
        \<and> focused (run [(e, Deliver r (blur_of evt)), (e, Deliver r' (focus_of evt')),
                         (e, Timeout)] s) = False
        \<and> notifications (run [(e, Deliver r (blur_of evt)), (e, Deliver r' (focus_of evt')),
                         (e, Timeout)] s)
            = notifications s @ [EmitBlur evt]"
    if "r \<in> set (monitoredElements s)" and "timers s = []"
    unfolding run.simps b c [OF that(1)]
    using that(2)
    by (simp add: handleBlur_resume_def checkSubsequentFocus_resume_def perform_def
        setFocused_def setInactive_def setPrevActiveSegmentName_def notifications_def)
  show ?thesis using a b c d by blast
qed

theorem disabled_guard_witness:
  "disabled disabled_widget
   \<and> step disabled_widget (Deliver (Element 7) (focus_of (ev 2))) moved_to_container
       = moved_to_container
   \<and> notifications (run [(disabled_widget, Deliver ElementRef (blur_of (ev 1))),
                          (disabled_widget, Deliver (Element 7) (focus_of (ev 2))),
                          (disabled_widget, Timeout)] focused_widget)
       = [EmitFocus (ev 0), EmitBlur (ev 1)]"
  using disabled_guard [of disabled_widget "ev 2" moved_to_container "Element 7"]
    disabled_guard [of disabled_widget "ev 1" focused_widget ElementRef "Element 7" "ev 2"]
  by (simp add: focused_widget_state moved_to_container_state disabled_widget_def widget_def
      handler_defs)

subsection \<open>A second blur while the window is open\<close>

text \<open>
  C3: at most one debounce window is open in a tracker; a second blur that arrives while
  a window is open is to collapse onto it, without resetting \<^verbatim>\<open>subsequentFocus\<close> and
  without a second timer and decision. The code departs from this. Focus has moved from
  the element to the container, so the window of the blur of the element is open and the
  focus of the container is marked in it. A blur of the container that arrives now resets
  the mark and adds a timer of its own. The first timer then finds no mark and emits
  \<^verbatim>\<open>onBlur\<close> for the blur of the element, which a focus inside the widget had followed at
  once, and the second timer emits \<^verbatim>\<open>onBlur\<close> again.
\<close>

theorem second_blur_opens_second_window:
  "shouldCheck moved_to_container \<and> subsequentFocus moved_to_container
   \<and> timers moved_to_container = [(ev 1, Some BlurCb)]
   \<and> Element 7 \<in> set (monitoredElements moved_to_container)
   \<and> \<not> subsequentFocus (step widget (Deliver (Element 7) (blur_of (ev 3))) moved_to_container)
   \<and> timers (step widget (Deliver (Element 7) (blur_of (ev 3))) moved_to_container)
       = [(ev 1, Some BlurCb), (ev 3, Some BlurCb)]
   \<and> notifications (run [(widget, Deliver (Element 7) (blur_of (ev 3))),
                          (widget, Timeout), (widget, Timeout)] moved_to_container)
       = notifications moved_to_container @ [EmitBlur (ev 1), EmitBlur (ev 3)]"
  by (simp add: moved_to_container_state widget_def handler_defs)

subsection \<open>Events of a single region\<close>

lemma inv_focus:
  assumes "window_inv r p lo s" and "origin m" and "event m = Some evt" and "\<not> disabled e"
  shows "window_inv r p True (step e (Deliver r m) s)
     \<and> notifications (step e (Deliver r m) s) = notifications s @ transition e (Deliver r m) s
     \<and> focused (step e (Deliver r m) s)"
  by (cases r; cases p; use assms in
      \<open>auto simp: window_inv_def transition_def handler_defs Let_def\<close>)

lemma inv_blur:
  assumes "window_inv r False lo s" and "\<not> origin m" and "event m = Some evt"
  shows "window_inv r True False (step e (Deliver r m) s)
     \<and> notifications (step e (Deliver r m) s) = notifications s @ transition e (Deliver r m) s
     \<and> focused (step e (Deliver r m) s) = focused s"
  using assms by (auto simp: window_inv_def transition_def handler_defs)

lemma inv_timeout:
  assumes "window_inv r p lo s"
  shows "window_inv r False lo (step e Timeout s)"
  using assms
  by (cases p)
    (auto simp: window_inv_def handler_defs length_Suc_conv split: list.splits)

lemma inv_timeout_notifications:
  assumes "window_inv r p lo s" and "p \<longrightarrow> focused s"
  shows "notifications (step e Timeout s) = notifications s @ transition e Timeout s"
  using assms
  by (cases p)
    (auto simp: window_inv_def transition_def handler_defs length_Suc_conv split: list.splits)

lemma inv_quiet:
  assumes "window_inv r p lo s" and "quiet i"
  shows "window_inv r p lo (step e i s)
     \<and> notifications (step e i s) = notifications s @ transition e i s
     \<and> focused (step e i s) = focused s"
  using assms quiet_step [OF assms(2), of e s]
  by (auto simp: window_inv_def transition_def)

lemma spaced_mirror:
  assumes "spaced r p xs" and "window_inv r p lo s"
  shows "focused (run xs s) = last_origin lo xs"
  using assms
proof (induction xs arbitrary: s p lo)
  case Nil
  then show ?case by (simp add: window_inv_def)
next
  case (Cons x xs)
  obtain e i where x: "x = (e, i)" by (cases x)
  show ?case
  proof (cases i)
    case (Deliver r' m)
    from Cons.prems(1) x Deliver obtain evt where r': "r' = r" and evt: "event m = Some evt"
      by auto
    show ?thesis
    proof (cases "origin m")
      case True
      have "\<not> disabled e" and "spaced r p xs"
        using Cons.prems(1) x Deliver True by simp_all
      then show ?thesis
        using Cons.IH [of p True "step e (Deliver r m) s"]
          inv_focus [OF Cons.prems(2) True evt, of e] x Deliver r' True by simp
    next
      case False
      have "\<not> p" and "spaced r True xs"
        using Cons.prems(1) x Deliver False by simp_all
      then show ?thesis
        using Cons.IH [of True False "step e (Deliver r m) s"]
          inv_blur [OF _ False evt, of r lo s e] Cons.prems(2) x Deliver r' False by simp
    qed
  next
    case Timeout
    then show ?thesis
      using Cons.IH [of False lo "step e Timeout s"] Cons.prems
        inv_timeout [OF Cons.prems(2), of e] x by simp
  next
    case NextTick
    then have q: "quiet i" by simp
    show ?thesis
      using Cons.IH [of p lo "step e i s"] Cons.prems(1) inv_quiet [OF Cons.prems(2) q, of e]
        x NextTick by simp
  next
    case (CallFocus options)
    then have q: "quiet i" by simp
    show ?thesis
      using Cons.IH [of p lo "step e i s"] Cons.prems(1) inv_quiet [OF Cons.prems(2) q, of e]
        x CallFocus by simp
  next
    case SegmentChanged
    then have q: "quiet i" by simp
    show ?thesis
      using Cons.IH [of p lo "step e i s"] Cons.prems(1) inv_quiet [OF Cons.prems(2) q, of e]
        x SegmentChanged by simp
  next
    case Mounted
    then have q: "quiet i" by simp
    show ?thesis
      using Cons.IH [of p lo "step e i s"] Cons.prems(1) inv_quiet [OF Cons.prems(2) q, of e]
        x Mounted by simp
  next
    case BeforeUnmount
    then have q: "quiet i" by simp
    show ?thesis
      using Cons.IH [of p lo "step e i s"] Cons.prems(1) inv_quiet [OF Cons.prems(2) q, of e]
        x BeforeUnmount by simp
  next
    case CallBlur
    then show ?thesis using Cons.prems(1) x by simp
  qed
qed

lemma spaced_transitions:
  assumes "spaced r p xs" and "window_inv r p lo s" and "p \<longrightarrow> focused s"
    and "blur_while_focused xs s"
  shows "notifications (run xs s) = notifications s @ transitions xs s"
  using assms
proof (induction xs arbitrary: s p lo)
  case Nil
  then show ?case by simp
next
  case (Cons x xs)
  obtain e i where x: "x = (e, i)" by (cases x)
  show ?case
  proof (cases i)
    case (Deliver r' m)
    from Cons.prems(1) x Deliver obtain evt where r': "r' = r" and evt: "event m = Some evt"
      by auto
    show ?thesis
    proof (cases "origin m")
      case True
      have "\<not> disabled e" and "spaced r p xs"
        using Cons.prems(1) x Deliver True by simp_all
      then show ?thesis
        using Cons.IH [of p True "step e (Deliver r m) s"]
          inv_focus [OF Cons.prems(2) True evt, of e] Cons.prems(4) x Deliver r' True by simp
    next
      case False
      have "\<not> p" and "spaced r True xs" and "focused s"
        using Cons.prems(1,4) x Deliver False by simp_all
      then show ?thesis
        using Cons.IH [of True False "step e (Deliver r m) s"]
          inv_blur [OF _ False evt, of r lo s e] Cons.prems(2,4) x Deliver r' False by simp
    qed
  next
    case Timeout
    then show ?thesis
      using Cons.IH [of False lo "step e Timeout s"] Cons.prems
        inv_timeout [OF Cons.prems(2), of e]
        inv_timeout_notifications [OF Cons.prems(2,3), of e] x by simp
  next
    case NextTick
    then have q: "quiet i" by simp
    show ?thesis
      using Cons.IH [of p lo "step e i s"] Cons.prems(1,3,4)
        inv_quiet [OF Cons.prems(2) q, of e] x NextTick by simp
  next
    case (CallFocus options)
    then have q: "quiet i" by simp
    show ?thesis
      using Cons.IH [of p lo "step e i s"] Cons.prems(1,3,4)
        inv_quiet [OF Cons.prems(2) q, of e] x CallFocus by simp
  next
    case SegmentChanged
    then have q: "quiet i" by simp
    show ?thesis
      using Cons.IH [of p lo "step e i s"] Cons.prems(1,3,4)
        inv_quiet [OF Cons.prems(2) q, of e] x SegmentChanged by simp
  next
    case Mounted
    then have q: "quiet i" by simp
    show ?thesis
      using Cons.IH [of p lo "step e i s"] Cons.prems(1,3,4)
        inv_quiet [OF Cons.prems(2) q, of e] x Mounted by simp
  next
    case BeforeUnmount
    then have q: "quiet i" by simp
    show ?thesis
      using Cons.IH [of p lo "step e i s"] Cons.prems(1,3,4)
        inv_quiet [OF Cons.prems(2) q, of e] x BeforeUnmount by simp
  next
    case CallBlur
    then show ?thesis using Cons.prems(1) x by simp
  qed
qed

text \<open>
  C4, amended: a sequence of focus and blur events of a single monitored region, with
  timers firing and probes running anywhere in between, in which no blur arrives while the
  timer of an earlier blur is pending and every focus finds the widget enabled. Once the pending
  timer has fired, the focused state is the origin of the most recent event. When moreover
  every blur arrives while the focused state is true, the notifications of the sequence
  are exactly its transitions of the focused state: \<^verbatim>\<open>onFocus\<close> at every step that
  makes it true, \<^verbatim>\<open>onBlur\<close> at every step that makes it false, and none at any
  other step.
\<close>

theorem single_region_mirror:
  assumes "r \<in> set (monitoredElements s)" and "timers s = []" and "spaced r False xs"
  shows "focused (run xs s) = last_origin (focused s) xs
     \<and> (blur_while_focused xs s \<longrightarrow>
          notifications (run xs s) = notifications s @ transitions xs s)"
proof -
  have inv: "window_inv r False (focused s) s"
    using assms(1,2) by (simp add: window_inv_def)
  show ?thesis
    using spaced_mirror [OF assms(3) inv] spaced_transitions [OF assms(3) inv] by simp
qed

theorem single_region_mirror_witness:
  "ElementRef \<in> set (monitoredElements focused_widget) \<and> timers focused_widget = []
   \<and> spaced ElementRef False
        [(widget, Deliver ElementRef (blur_of (ev 1))),
         (widget, Deliver ElementRef (focus_of (ev 2))), (widget, NextTick),
         (widget, Timeout),
         (widget, Deliver ElementRef (blur_of (ev 3))), (widget, Timeout),
         (widget, Deliver ElementRef (focus_of (ev 4)))]
   \<and> blur_while_focused
        [(widget, Deliver ElementRef (blur_of (ev 1))),
         (widget, Deliver ElementRef (focus_of (ev 2))), (widget, NextTick),
         (widget, Timeout),
         (widget, Deliver ElementRef (blur_of (ev 3))), (widget, Timeout),
         (widget, Deliver ElementRef (focus_of (ev 4)))] focused_widget
   \<and> focused (run
        [(widget, Deliver ElementRef (blur_of (ev 1))),
         (widget, Deliver ElementRef (focus_of (ev 2))), (widget, NextTick),
         (widget, Timeout),
         (widget, Deliver ElementRef (blur_of (ev 3))), (widget, Timeout),
         (widget, Deliver ElementRef (focus_of (ev 4)))] focused_widget)
   \<and> notifications (run
        [(widget, Deliver ElementRef (blur_of (ev 1))),
         (widget, Deliver ElementRef (focus_of (ev 2))), (widget, NextTick),
         (widget, Timeout),
         (widget, Deliver ElementRef (blur_of (ev 3))), (widget, Timeout),
         (widget, Deliver ElementRef (focus_of (ev 4)))] focused_widget)
       = [EmitFocus (ev 0), EmitBlur (ev 3), EmitFocus (ev 4)]"
  using single_region_mirror [of ElementRef focused_widget
        "[(widget, Deliver ElementRef (blur_of (ev 1))),
         (widget, Deliver ElementRef (focus_of (ev 2))), (widget, NextTick),
         (widget, Timeout),
         (widget, Deliver ElementRef (blur_of (ev 3))), (widget, Timeout),
         (widget, Deliver ElementRef (focus_of (ev 4)))]"]
  by (simp add: focused_widget_state widget_def handler_defs transition_def)

text \<open>
  C4, as the claim states it, fails. A focus that finds the widget disabled is ignored, so
  the focused state stays false after a focus. Blur, focus, blur, focus on the element
  before any timer fires: after both timers the focused state is false although the most
  recent event is a focus. And the timer of a blur that arrived while the focused state
  was false emits \<^verbatim>\<open>onBlur\<close> without a transition.
\<close>

theorem single_region_counterexample:
  "\<not> focused (run [(widget, Mounted), (disabled_widget, Deliver ElementRef (focus_of (ev 0)))]
                 useFocusedState)
   \<and> focused focused_widget
   \<and> run [(widget, Deliver ElementRef (blur_of (ev 1))),
           (widget, Deliver ElementRef (focus_of (ev 2))),
           (widget, Deliver ElementRef (blur_of (ev 3))),
           (widget, Deliver ElementRef (focus_of (ev 4))),
           (widget, Timeout), (widget, Timeout)] focused_widget
       = focused_widget
           \<lparr>focused := False, nextTicks := 2,
            effects := effects focused_widget @ [SetInactive True, EmitBlur (ev 3)]\<rparr>
   \<and> \<not> focused (run [(widget, Mounted)] useFocusedState)
   \<and> run [(widget, Mounted), (widget, Deliver ElementRef (blur_of (ev 1))), (widget, Timeout)]
         useFocusedState
       = useFocusedState
           \<lparr>monitoredElements := [ElementRef],
            effects := [Monitor ElementRef, SetInactive True, EmitBlur (ev 1)]\<rparr>"
  by (simp add: focused_widget_state useFocusedState_def widget_def disabled_widget_def
      handler_defs)

subsection \<open>Discovery of the overlay container\<close>

lemma call_cb_locator [simp]:
  "filter (\<lambda>x. x = GetOverlayContainer) (effects (call_cb e cb s)) =
     filter (\<lambda>x. x = GetOverlayContainer) (effects s)"
  by (cases "(e, cb, s)" rule: call_cb.cases; simp add: handler_defs)

lemma schedule_probe:
  assumes "ElementRef \<in> set (monitoredElements s)"
  shows "nextTicks (step e (Deliver ElementRef (focus_of evt)) s) = Suc (nextTicks s)"
  using assms by (simp add: handler_defs Let_def)

lemma probe_latched:
  "overlayContainerMonitored s \<Longrightarrow> probeOverlayContainer e s = s"
  by (simp add: probeOverlayContainer_def)

lemma latched_step:
  assumes "overlayContainerMonitored s"
  shows "overlayContainerMonitored (step e i s)
     \<and> overlay_binds (step e i s) = overlay_binds s
     \<and> locator_calls (step e i s) = locator_calls s"
proof (cases i)
  case (Deliver r m)
  show ?thesis
  proof (cases "event m")
    case None
    then show ?thesis using Deliver assms by (simp add: handler_defs)
  next
    case (Some evt)
    then show ?thesis using Deliver assms
      by (cases r) (simp_all add: handler_defs overlay_binds_def locator_calls_def Let_def)
  qed
next
  case Timeout
  then show ?thesis using assms
    by (simp add: handler_defs overlay_binds_def locator_calls_def split: list.splits)
next
  case NextTick
  then show ?thesis using assms
    by (simp add: probeOverlayContainer_def overlay_binds_def locator_calls_def split: nat.splits)
next
  case (CallFocus options)
  then show ?thesis using assms
    by (simp add: focus_def perform_def overlay_binds_def locator_calls_def split: handle.splits)
next
  case Mounted
  then show ?thesis using assms
    by (simp add: handler_defs overlay_binds_def locator_calls_def)
qed (use assms in \<open>simp_all add: handler_defs overlay_binds_def locator_calls_def\<close>)

lemma latched_run:
  assumes "overlayContainerMonitored s"
  shows "overlayContainerMonitored (run evs s)
     \<and> overlay_binds (run evs s) = overlay_binds s
     \<and> locator_calls (run evs s) = locator_calls s"
  using assms
proof (induction evs arbitrary: s)
  case Nil
  then show ?case by simp
next
  case (Cons x evs)
  obtain e i where x: "x = (e, i)" by (cases x)
  show ?case
    using Cons.IH [of "step e i s"] latched_step [OF Cons.prems, of e i] x by simp
qed

lemma unlatched_step:
  assumes "\<not> overlayContainerMonitored s"
  shows "(\<not> overlayContainerMonitored (step e i s) \<and> overlay_binds (step e i s) = overlay_binds s)
     \<or> (\<exists>n. overlayContainerMonitored (step e i s)
            \<and> overlay_binds (step e i s) = overlay_binds s @ [Monitor (Element n)])"
proof (cases i)
  case (Deliver r m)
  show ?thesis
  proof (cases "event m")
    case None
    then show ?thesis using Deliver assms by (simp add: handler_defs)
  next
    case (Some evt)
    then show ?thesis using Deliver assms
      by (cases r) (simp_all add: handler_defs overlay_binds_def Let_def)
  qed
next
  case Timeout
  then show ?thesis using assms
    by (simp add: handler_defs overlay_binds_def split: list.splits)
next
  case NextTick
  then show ?thesis using assms
    by (simp add: probeOverlayContainer_def bindMonitor_def perform_def overlay_binds_def
        split: nat.splits sum.splits handle.splits)
next
  case (CallFocus options)
  then show ?thesis using assms
    by (simp add: focus_def perform_def overlay_binds_def split: handle.splits)
qed (use assms in \<open>simp_all add: handler_defs overlay_binds_def\<close>)

lemma bound_once:
  assumes "if overlayContainerMonitored s then length (overlay_binds s) \<le> 1
           else overlay_binds s = []"
  shows "length (overlay_binds (run evs s)) \<le> 1"
  using assms
proof (induction evs arbitrary: s)
  case Nil
  then show ?case by (simp split: if_splits)
next
  case (Cons x evs)
  obtain e i where x: "x = (e, i)" by (cases x)
  have "if overlayContainerMonitored (step e i s) then length (overlay_binds (step e i s)) \<le> 1
        else overlay_binds (step e i s) = []"
  proof (cases "overlayContainerMonitored s")
    case True
    then show ?thesis using latched_step [OF True, of e i] Cons.prems by simp
  next
    case False
    then show ?thesis using unlatched_step [OF False, of e i] Cons.prems by auto
  qed
  then show ?case using Cons.IH [of "step e i s"] x by simp
qed

text \<open>
  C7: the overlay container is bound at most once in the life of a tracker, whatever
  happens. Every focus of the primary region schedules a probe for the next tick. A probe
  that finds the latch set does nothing: it does not call the locator. A probe that finds
  the latch unset calls the locator; when the locator answers null or undefined, nothing
  is bound, nothing is thrown and the latch stays unset, so the probe of the next focus
  tries again; when it answers an element, the element is bound and the latch is set. Once
  the latch is set it stays set, and no later input binds a container or calls the locator.
\<close>

theorem overlay_bound_once:
  "length (overlay_binds (run evs useFocusedState)) \<le> 1
   \<and> (ElementRef \<in> set (monitoredElements s) \<longrightarrow>
        nextTicks (step e (Deliver ElementRef (focus_of evt)) s) = Suc (nextTicks s))
   \<and> (overlayContainerMonitored s \<longrightarrow> probeOverlayContainer e s = s)
   \<and> (\<not> overlayContainerMonitored s
        \<and> getContainerEl (querySelector e) (container e) \<in> {Inr Null, Inr Undefined} \<longrightarrow>
        probeOverlayContainer e s = s\<lparr>effects := effects s @ [GetOverlayContainer]\<rparr>)
   \<and> (\<not> overlayContainerMonitored s
        \<and> getContainerEl (querySelector e) (container e) = Inr (Handle n) \<longrightarrow>
        probeOverlayContainer e s =
          s\<lparr>effects := effects s @ [GetOverlayContainer, Monitor (Element n)],
            monitoredElements :=
              (if Element n \<in> set (monitoredElements s) then monitoredElements s
               else monitoredElements s @ [Element n]),
            overlayContainerMonitored := True\<rparr>)
   \<and> (overlayContainerMonitored s \<longrightarrow>
        overlayContainerMonitored (run evs s)
        \<and> overlay_binds (run evs s) = overlay_binds s
        \<and> locator_calls (run evs s) = locator_calls s)"
proof -
  have a: "length (overlay_binds (run evs useFocusedState)) \<le> 1"
    by (rule bound_once) (simp add: useFocusedState_def overlay_binds_def)
  have d: "probeOverlayContainer e s = s\<lparr>effects := effects s @ [GetOverlayContainer]\<rparr>"
    if "\<not> overlayContainerMonitored s"
      and "getContainerEl (querySelector e) (container e) \<in> {Inr Null, Inr Undefined}"
    using that by (auto simp: probeOverlayContainer_def perform_def)
  have b: "probeOverlayContainer e s =
          s\<lparr>effects := effects s @ [GetOverlayContainer, Monitor (Element n)],
            monitoredElements :=
              (if Element n \<in> set (monitoredElements s) then monitoredElements s
               else monitoredElements s @ [Element n]),
            overlayContainerMonitored := True\<rparr>"
    if "\<not> overlayContainerMonitored s"
      and "getContainerEl (querySelector e) (container e) = Inr (Handle n)"
    using that by (simp add: probeOverlayContainer_def bindMonitor_def perform_def)
  show ?thesis
    using a b d schedule_probe [of s e evt] probe_latched [of s e] latched_run [of s evs]
    by blast
qed

theorem overlay_bound_once_witness:
  "ElementRef \<in> set (monitoredElements (run [(widget, Mounted)] useFocusedState))
   \<and> overlayContainerMonitored focused_widget
   \<and> overlay_binds (run [(widget, Deliver ElementRef (blur_of (ev 1))), (widget, Timeout),
                          (widget, Deliver ElementRef (focus_of (ev 2))), (widget, NextTick)]
                      focused_widget) = [Monitor (Element 7)]
   \<and> locator_calls (run [(widget, Deliver ElementRef (blur_of (ev 1))), (widget, Timeout),
                          (widget, Deliver ElementRef (focus_of (ev 2))), (widget, NextTick)]
                      focused_widget) = 1"
  using overlay_bound_once [of "[(widget, Deliver ElementRef (blur_of (ev 1))), (widget, Timeout),
                          (widget, Deliver ElementRef (focus_of (ev 2))), (widget, NextTick)]"
      focused_widget widget "ev 2" 7]
  by (simp add: focused_widget_state useFocusedState_def widget_def handler_defs
      overlay_binds_def locator_calls_def)

end
